theory Spec2Isabelle
  imports Main "HOL-Library.Sublist"
begin

section \<open>Values shared by the three source files\<close>

text \<open>
  A JavaScript exception is a value: every \<^verbatim>\<open>throw\<close> and every rejected promise of the
  source is the \<open>Inl\<close> branch of a sum. The gateway never inspects the exception it catches,
  so the message is all that is kept.
\<close>

datatype exn = Exn string

text \<open>A Node \<^verbatim>\<open>Buffer\<close> is a sequence of bytes; a \<open>char\<close> of HOL is one byte.\<close>

type_synonym buffer = "char list"

text \<open>
  \<^verbatim>\<open>String.prototype.includes\<close>: the argument occurs as a contiguous run of the
  receiver. The comparison is case sensitive, as in JavaScript.
\<close>

fun string_includes :: "string \<Rightarrow> string \<Rightarrow> bool" where
  "string_includes [] sub = (sub = [])"
| "string_includes (c # cs) sub = (prefix sub (c # cs) \<or> string_includes cs sub)"

section \<open>toon-codec.js\<close>

text \<open>
  The options objects of the two entry points. A property that the caller leaves out is
  \<open>None\<close>; the default parameter \<^verbatim>\<open>options = {}\<close> is the record with every property left out.
\<close>

datatype key_folding = FoldOff | FoldSafe

datatype expand_paths = ExpandOff | ExpandSafe

record encode_options =
  delimiter :: "char option"
  indent :: "nat option"
  keyFolding :: "key_folding option"
  flattenDepth :: "nat option"

record decode_options =
  strict :: "bool option"
  expandPaths :: "expand_paths option"
  indentSize :: "nat option"

definition empty_encode_options :: encode_options where
  "empty_encode_options =
     \<lparr>delimiter = None, indent = None, keyFolding = None, flattenDepth = None\<rparr>"

definition empty_decode_options :: decode_options where
  "empty_decode_options = \<lparr>strict = None, expandPaths = None, indentSize = None\<rparr>"

text \<open>
  The module \<^verbatim>\<open>@toon-format/toon\<close> that toon-codec.js requires is a package outside the
  repository. Its two functions are taken as they are given: \<open>'v\<close> is the type of
  JavaScript values they work on.
\<close>

record 'v toon_module =
  toon_encode :: "'v \<Rightarrow> encode_options \<Rightarrow> exn + string"
  toon_decode :: "string \<Rightarrow> decode_options \<Rightarrow> exn + 'v"

definition encodeToToon :: "'v toon_module \<Rightarrow> 'v \<Rightarrow> encode_options \<Rightarrow> exn + string" where
  "encodeToToon toon data options = toon_encode toon data options"

definition decodeFromToon :: "'v toon_module \<Rightarrow> string \<Rightarrow> decode_options \<Rightarrow> exn + 'v" where
  "decodeFromToon toon toonString options = toon_decode toon toonString options"

section \<open>cache.js\<close>

text \<open>
  The request fields the gateway reads.
\<close>

record request =
  "method" :: string
  path :: string
  originalUrl :: string

definition generateKey :: "request \<Rightarrow> string" where
  "generateKey req = ''toon_cache:'' @ method req @ '':'' @ originalUrl req"

text \<open>
  The Redis client as the gateway sees it: the module variable \<^verbatim>\<open>redisConnected\<close>, the keys
  the server holds, whether a command sent now is answered (otherwise its promise rejects),
  and the commands sent so far, oldest first.
\<close>

datatype redis_command = GET string | SET string string nat

record redis_client =
  redisConnected :: bool
  keyspace :: "string \<rightharpoonup> string"
  answering :: bool
  sent :: "redis_command list"

datatype redis_event = OnError | OnConnect | OnReady | OnClose | OnReconnecting

fun redis_on :: "redis_event \<Rightarrow> redis_client \<Rightarrow> redis_client" where
  "redis_on OnError r = r\<lparr>redisConnected := False\<rparr>"
| "redis_on OnConnect r = r\<lparr>redisConnected := True\<rparr>"
| "redis_on OnReady r = r\<lparr>redisConnected := True\<rparr>"
| "redis_on OnClose r = r\<lparr>redisConnected := False\<rparr>"
| "redis_on OnReconnecting r = r\<lparr>redisConnected := False\<rparr>"

definition isRedisConnected :: "redis_client \<Rightarrow> bool" where
  "isRedisConnected r = redisConnected r"

definition redis_get :: "redis_client \<Rightarrow> string \<Rightarrow> (exn + string option) \<times> redis_client" where
  "redis_get r key =
     (let r' = r\<lparr>sent := sent r @ [GET key]\<rparr>
      in if answering r then (Inr (keyspace r key), r')
         else (Inl (Exn ''redis''), r'))"

definition redis_set ::
  "redis_client \<Rightarrow> string \<Rightarrow> string \<Rightarrow> nat \<Rightarrow> (exn + unit) \<times> redis_client" where
  "redis_set r key val ttl =
     (let r' = r\<lparr>sent := sent r @ [SET key val ttl]\<rparr>
      in if answering r then (Inr (), r'\<lparr>keyspace := (keyspace r)(key \<mapsto> val)\<rparr>)
         else (Inl (Exn ''redis''), r'))"

section \<open>app.js\<close>

text \<open>
  The response under construction: its status code and its headers. Node keeps header
  names case-insensitively, so \<open>setHeader\<close> and \<open>removeHeader\<close> work on the lower-cased name.
\<close>

record response =
  statusCode :: nat
  headers :: "string \<rightharpoonup> string"

definition lower_char :: "char \<Rightarrow> char" where
  "lower_char c =
     (let n = (of_char c :: nat) in if 65 \<le> n \<and> n \<le> 90 then char_of (n + 32) else c)"

definition setHeader :: "string \<Rightarrow> string \<Rightarrow> response \<Rightarrow> response" where
  "setHeader name val res = res\<lparr>headers := (headers res)(map lower_char name \<mapsto> val)\<rparr>"

definition removeHeader :: "string \<Rightarrow> response \<Rightarrow> response" where
  "removeHeader name res = res\<lparr>headers := (headers res)(map lower_char name := None)\<rparr>"

text \<open>
  What a middleware ends with: \<^verbatim>\<open>next()\<close>, which hands the request to the proxy, or
  \<^verbatim>\<open>res.send(cachedData)\<close>, which answers it. The calls to the logger write to log files
  only and are left out.
\<close>

datatype outcome = Next | Send string

definition cacheMiddleware ::
  "redis_client \<Rightarrow> request \<Rightarrow> response \<Rightarrow> outcome \<times> response \<times> redis_client" where
  "cacheMiddleware r req res =
     (if method req \<noteq> ''GET'' then (Next, res, r)
      else if path req = ''/health'' then (Next, res, r)
      else if \<not> isRedisConnected r then (Next, setHeader ''X-Cache'' ''UNAVAILABLE'' res, r)
      else
        let key = generateKey req in
        case redis_get r key of
          (Inr cachedData, r') \<Rightarrow>
            (case cachedData of
               Some (c # cs) \<Rightarrow>
                 (Send (c # cs),
                  setHeader ''Content-Type'' ''text/toon; charset=utf-8''
                    (setHeader ''X-Cache'' ''HIT'' res), r')
             | _ \<Rightarrow> (Next, setHeader ''X-Cache'' ''MISS'' res, r'))
        | (Inl err, r') \<Rightarrow> (Next, setHeader ''X-Cache'' ''ERROR'' res, r'))"

text \<open>
  The upstream response handed to the interceptor, and what the interceptor returns: the
  buffer it was given, or the TOON text.
\<close>

record proxy_response =
  upstream_status :: nat
  upstream_headers :: "string \<rightharpoonup> string"

datatype payload = Buffer buffer | Text string

text \<open>
  \<^verbatim>\<open>Buffer.prototype.toString('utf8')\<close> and \<^verbatim>\<open>JSON.parse\<close> are built into the runtime and
  the TOON module is a package; \<^verbatim>\<open>CACHE_TTL\<close> is read from the environment. The interceptor
  takes them as given.
\<close>

record 'v runtime =
  toString_utf8 :: "buffer \<Rightarrow> string"
  JSON_parse :: "string \<Rightarrow> exn + 'v"
  toon :: "'v toon_module"
  CACHE_TTL :: nat

definition onProxyRes ::
  "'v runtime \<Rightarrow> redis_client \<Rightarrow> buffer \<Rightarrow> proxy_response \<Rightarrow> request \<Rightarrow> response
     \<Rightarrow> payload \<times> response \<times> redis_client" where
  "onProxyRes rt r responseBuffer proxyRes req res =
     (case upstream_headers proxyRes ''content-type'' of
        None \<Rightarrow> (Buffer responseBuffer, res, r)
      | Some contentType \<Rightarrow>
          if contentType \<noteq> [] \<and> string_includes contentType ''application/json'' then
            (case JSON_parse rt (toString_utf8 rt responseBuffer) of
               Inl err \<Rightarrow> (Buffer responseBuffer, res, r)
             | Inr jsonBody \<Rightarrow>
                 (case encodeToToon (toon rt) jsonBody empty_encode_options of
                    Inl err \<Rightarrow> (Buffer responseBuffer, res, r)
                  | Inr toonBody \<Rightarrow>
                      let r' =
                        (if method req = ''GET'' \<and> statusCode res = 200 \<and> isRedisConnected r
                         then snd (redis_set r (generateKey req) toonBody (CACHE_TTL rt))
                         else r)
                      in (Text toonBody,
                          removeHeader ''etag''
                            (removeHeader ''content-length''
                              (setHeader ''Content-Type'' ''text/toon; charset=utf-8'' res)),
                          r')))
          else (Buffer responseBuffer, res, r))"

text \<open>
  \<^verbatim>\<open>responseInterceptor\<close> of http-proxy-middleware copies the upstream status and headers
  onto the response before it calls the interceptor, and sends what the interceptor returns
  as the body. \<^verbatim>\<open>onError\<close> answers 502 when the upstream cannot be reached.
\<close>

definition copyHeaders :: "proxy_response \<Rightarrow> response \<Rightarrow> response" where
  "copyHeaders proxyRes res =
     res\<lparr>statusCode := upstream_status proxyRes,
         headers := headers res ++ upstream_headers proxyRes\<rparr>"

text \<open>
  One request through \<^verbatim>\<open>app.use('/', cacheMiddleware, createProxyMiddleware(proxyOptions))\<close>:
  the upstream either replies or cannot be reached. An exchange records the request, where
  the answer came from, the response as sent and its body.
\<close>

datatype upstream = Reply proxy_response buffer | Unreachable

datatype origin = FromCache | FromUpstream | FromGateway

record exchange =
  ex_request :: request
  ex_origin :: origin
  ex_response :: response
  ex_body :: payload

definition bad_gateway :: string where
  \<open>bad_gateway = ''{"error":"Bad Gateway","message":"Unable to reach upstream service"}''\<close>

definition onError :: "response \<Rightarrow> payload \<times> response" where
  "onError res =
     (Text bad_gateway,
      setHeader ''Content-Type'' ''application/json; charset=utf-8'' (res\<lparr>statusCode := 502\<rparr>))"

text \<open>
  What the environment does to the Redis client: it delivers a connection event, expires
  a key (every key is stored with a time to live), or makes the server stop or start
  answering.
\<close>

datatype change = Signal redis_event | Expired string | Reachable bool

fun apply_change :: "redis_client \<Rightarrow> change \<Rightarrow> redis_client" where
  "apply_change r (Signal e) = redis_on e r"
| "apply_change r (Expired key) = r\<lparr>keyspace := (keyspace r)(key := None)\<rparr>"
| "apply_change r (Reachable b) = r\<lparr>answering := b\<rparr>"

text \<open>
  A request that the cache does not answer waits for the upstream; \<open>between\<close> are the
  changes of the environment during that wait.
\<close>

definition handle ::
  "'v runtime \<Rightarrow> redis_client \<Rightarrow> request \<Rightarrow> response \<Rightarrow> change list \<Rightarrow> upstream
     \<Rightarrow> exchange \<times> redis_client" where
  "handle rt r req res between up =
     (case cacheMiddleware r req res of
        (Send cachedData, res', r') \<Rightarrow>
          (\<lparr>ex_request = req, ex_origin = FromCache, ex_response = res',
            ex_body = Text cachedData\<rparr>, r')
      | (Next, res', r') \<Rightarrow>
          (case up of
             Unreachable \<Rightarrow>
               (case onError res' of
                  (body, res'') \<Rightarrow>
                    (\<lparr>ex_request = req, ex_origin = FromGateway, ex_response = res'',
                      ex_body = body\<rparr>, foldl apply_change r' between))
           | Reply proxyRes responseBuffer \<Rightarrow>
               (case onProxyRes rt (foldl apply_change r' between) responseBuffer proxyRes req
                       (copyHeaders proxyRes res') of
                  (body, res'', r'') \<Rightarrow>
                    (\<lparr>ex_request = req, ex_origin = FromUpstream, ex_response = res'',
                      ex_body = body\<rparr>, r''))))"

text \<open>
  The gateway over time: the Redis client and the exchanges served so far, oldest first.
  Requests are taken one at a time: the environment may change the Redis client before,
  after and during a request, but a second request is not interleaved with the first at
  the \<^verbatim>\<open>await\<close> points of the source. No other program writes to the keys of the gateway.
\<close>

record gateway =
  redis :: redis_client
  served :: "exchange list"

datatype event =
  Change change
  | Request request response "change list" upstream

fun step :: "'v runtime \<Rightarrow> gateway \<Rightarrow> event \<Rightarrow> gateway" where
  "step rt g (Change c) = g\<lparr>redis := apply_change (redis g) c\<rparr>"
| "step rt g (Request req res between up) =
     (case handle rt (redis g) req res between up of
        (ex, r') \<Rightarrow> \<lparr>redis = r', served = served g @ [ex]\<rparr>)"

definition run :: "'v runtime \<Rightarrow> gateway \<Rightarrow> event list \<Rightarrow> gateway" where
  "run rt g evs = foldl (step rt) g evs"

definition startup :: "bool \<Rightarrow> gateway" where
  "startup up =
     \<lparr>redis = \<lparr>redisConnected = False, keyspace = Map.empty, answering = up, sent = []\<rparr>,
      served = []\<rparr>"

text \<open>
  An exchange backs a cache entry when it is a transformed upstream response to a GET
  request with status 200, the entry's key is the request's key and the entry's value is
  the text that was returned as the body.
\<close>

definition backs :: "exchange \<Rightarrow> string \<Rightarrow> string \<Rightarrow> bool" where
  "backs ex key val \<longleftrightarrow>
     ex_origin ex = FromUpstream \<and> method (ex_request ex) = ''GET''
     \<and> statusCode (ex_response ex) = 200
     \<and> key = generateKey (ex_request ex) \<and> ex_body ex = Text val"

definition cache_inv :: "gateway \<Rightarrow> bool" where
  "cache_inv g \<longleftrightarrow>
     (\<forall>key val. keyspace (redis g) key = Some val \<longrightarrow> (\<exists>ex \<in> set (served g). backs ex key val))"


section \<open>The TOON codec, modelled from the spec\<close>

text \<open>
  Modelled from the spec: the functions \<^verbatim>\<open>encode\<close> and \<^verbatim>\<open>decode\<close> of the package
  \<^verbatim>\<open>@toon-format/toon\<close>, which toon-codec.js calls and which is not among the repository's
  files. The definitions of this section follow sections 3, 4, 6 and 7 of the spec, for
  \<^verbatim>\<open>keyFolding\<close> and \<^verbatim>\<open>expandPaths\<close> off; the two tree rewrites are not modelled, and a
  call that asks for one is refused, as is a call whose options lie outside the ranges of
  section 6. Where the spec leaves the text open, the choice made is said at the
  definition.
\<close>

subsection \<open>Values (section 3)\<close>

text \<open>
  Modelled from the spec: the Value variant. A number is a decimal \<open>m / 10 ^ k\<close>, or a
  non-finite number, which the encoder rejects. An object is its list of entries in
  insertion order.
\<close>

datatype number = Decimal int nat | NonFinite

datatype Value =
  Null
  | Boolean bool
  | Number number
  | String string
  | Array "Value list"
  | Object "(string \<times> Value) list"

text \<open>Modelled from the spec: the error taxonomy of section 7, an exception named by its class.\<close>

definition SyntaxError :: exn where "SyntaxError = Exn ''SyntaxError''"
definition IndentationError :: exn where "IndentationError = Exn ''IndentationError''"
definition LengthMismatchError :: exn where "LengthMismatchError = Exn ''LengthMismatchError''"
definition UnexpectedEndError :: exn where "UnexpectedEndError = Exn ''UnexpectedEndError''"
definition UnknownLiteralError :: exn where "UnknownLiteralError = Exn ''UnknownLiteralError''"
definition FoldingConflictError :: exn where "FoldingConflictError = Exn ''FoldingConflictError''"
definition ValueError :: exn where "ValueError = Exn ''ValueError''"

subsection \<open>Characters and numbers (section 4.1)\<close>

text \<open>
  Modelled from the spec: the characters the grammar names, whitespace, and decimal digits.
\<close>

definition dquote :: char where "dquote = CHR 0x22"
definition backslash :: char where "backslash = CHR 0x5C"
definition newline :: char where "newline = CHR 0x0A"
definition tab :: char where "tab = CHR 0x09"
definition carriage_return :: char where "carriage_return = CHR 0x0D"

definition is_space :: "char \<Rightarrow> bool" where
  "is_space c \<longleftrightarrow> c = CHR '' '' \<or> c = tab \<or> c = newline \<or> c = carriage_return"

definition trim :: "string \<Rightarrow> string" where
  "trim s = rev (dropWhile is_space (rev (dropWhile is_space s)))"

definition is_digit :: "char \<Rightarrow> bool" where
  "is_digit c \<longleftrightarrow> 48 \<le> (of_char c :: nat) \<and> (of_char c :: nat) \<le> 57"

definition digit_char :: "nat \<Rightarrow> char" where
  "digit_char n = char_of (48 + n)"

fun digits :: "nat \<Rightarrow> string" where
  "digits n = (if n < 10 then [digit_char n] else digits (n div 10) @ [digit_char (n mod 10)])"

declare digits.simps [simp del]

definition parse_nat :: "string \<Rightarrow> nat" where
  "parse_nat s = foldl (\<lambda>a c. 10 * a + ((of_char c :: nat) - 48)) 0 s"

text \<open>
  Modelled from the spec: the canonical text of a number, the shortest decimal text that
  parses back to it: no trailing zeros in the fraction, no fraction when it is zero, the
  sign kept.
\<close>

fun strip_zeros :: "int \<Rightarrow> nat \<Rightarrow> int \<times> nat" where
  "strip_zeros m 0 = (m, 0)"
| "strip_zeros m (Suc k) = (if m mod 10 = 0 then strip_zeros (m div 10) k else (m, Suc k))"

definition render_number :: "int \<Rightarrow> nat \<Rightarrow> string" where
  "render_number m k =
     (case strip_zeros m k of
        (m', k') \<Rightarrow>
          let a = nat \<bar>m'\<bar>;
              whole = digits (a div 10 ^ k');
              frac = digits (a mod 10 ^ k')
          in (if m' < 0 then ''-'' else '''') @ whole
             @ (if k' = 0 then '''' else ''.'' @ replicate (k' - length frac) (CHR ''0'') @ frac))"

text \<open>
  Modelled from the spec: valid number syntax. The spec calls numbers decimal and gives no
  grammar; this is the grammar of the texts \<open>render_number\<close> writes: an optional sign, an
  integer part without a leading zero, an optional fraction.
\<close>

definition number_syntax :: "string \<Rightarrow> bool" where
  "number_syntax s =
     (let body = (case s of c # cs \<Rightarrow> if c = CHR ''-'' then cs else s | [] \<Rightarrow> s);
          whole = takeWhile is_digit body;
          rest = dropWhile is_digit body
      in whole \<noteq> [] \<and> (whole = ''0'' \<or> hd whole \<noteq> CHR ''0'')
         \<and> (case rest of
               [] \<Rightarrow> True
             | c # frac \<Rightarrow> c = CHR ''.'' \<and> frac \<noteq> [] \<and> list_all is_digit frac))"

definition parse_number :: "string \<Rightarrow> number" where
  "parse_number s =
     (let negative = (case s of c # cs \<Rightarrow> c = CHR ''-'' | [] \<Rightarrow> False);
          body = (if negative then tl s else s);
          whole = takeWhile is_digit body;
          frac = drop 1 (dropWhile is_digit body);
          m = int (parse_nat (whole @ frac))
      in case strip_zeros (if negative then - m else m) (length frac) of
           (m', k') \<Rightarrow> Decimal m' k')"

subsection \<open>Quoting (section 4.1)\<close>

text \<open>
  Modelled from the spec: a string is quoted when it contains the active delimiter, has
  leading or trailing whitespace, contains a newline, is empty, or reads as a reserved
  literal or as a number; quoting escapes the quote and the backslash.
\<close>

definition reserved_literal :: "string \<Rightarrow> bool" where
  "reserved_literal s \<longleftrightarrow> s = ''null'' \<or> s = ''true'' \<or> s = ''false''"

definition needs_quoting :: "char \<Rightarrow> string \<Rightarrow> bool" where
  "needs_quoting d s \<longleftrightarrow>
     s = [] \<or> d \<in> set s \<or> is_space (hd s) \<or> is_space (last s) \<or> newline \<in> set s
     \<or> reserved_literal s \<or> number_syntax s"

definition escape :: "string \<Rightarrow> string" where
  "escape s = concat (map (\<lambda>c. if c = dquote \<or> c = backslash then [backslash, c] else [c]) s)"

definition encode_string :: "char \<Rightarrow> string \<Rightarrow> string" where
  "encode_string d s = (if needs_quoting d s then [dquote] @ escape s @ [dquote] else s)"

fun scalar :: "Value \<Rightarrow> bool" where
  "scalar (Array vs) = False"
| "scalar (Object fs) = False"
| "scalar v = True"

fun encode_scalar :: "char \<Rightarrow> Value \<Rightarrow> string" where
  "encode_scalar d Null = ''null''"
| "encode_scalar d (Boolean b) = (if b then ''true'' else ''false'')"
| "encode_scalar d (Number (Decimal m k)) = render_number m k"
| "encode_scalar d (String s) = encode_string d s"
| "encode_scalar d v = []"

text \<open>
  Modelled from the spec: decoding a token. A token that opens with a quote is unescaped
  and is a String whatever it holds; an unbalanced quote or a bad escape is a SyntaxError.
  A bare token is a literal, else a number, else a string; the bare-string grammar, which
  the spec does not give, is taken to be any non-empty text.
\<close>

fun scan_quoted :: "string \<Rightarrow> string \<Rightarrow> (string \<times> string) option" where
  "scan_quoted acc [] = None"
| "scan_quoted acc [c] = (if c = dquote then Some (rev acc, []) else None)"
| "scan_quoted acc (c # e # cs) =
     (if c = dquote then Some (rev acc, e # cs)
      else if c = backslash then
        (if e = dquote \<or> e = backslash then scan_quoted (e # acc) cs else None)
      else scan_quoted (c # acc) (e # cs))"

definition decode_token :: "string \<Rightarrow> exn + Value" where
  "decode_token raw =
     (let t = trim raw in
      case t of
        [] \<Rightarrow> Inl UnknownLiteralError
      | c # cs \<Rightarrow>
          if c = dquote then
            (case scan_quoted [] cs of
               Some (s, []) \<Rightarrow> Inr (String s)
             | _ \<Rightarrow> Inl SyntaxError)
          else if t = ''null'' then Inr Null
          else if t = ''true'' then Inr (Boolean True)
          else if t = ''false'' then Inr (Boolean False)
          else if number_syntax t then Inr (Number (parse_number t))
          else Inr (String t))"


subsection \<open>Tabular arrays (section 4.2)\<close>

text \<open>
  Modelled from the spec: an array is tabular iff it is not empty, every element is an
  object, all elements have the same keys in the same order, and every value under every
  key is a scalar. The result is the ordered field list of the header.
\<close>

definition tabular_fields :: "Value list \<Rightarrow> string list option" where
  "tabular_fields vs =
     (case vs of
        Object fs # rest \<Rightarrow>
          if list_all (\<lambda>w. case w of
                              Object gs \<Rightarrow> map fst gs = map fst fs \<and> list_all (\<lambda>g. scalar (snd g)) gs
                            | _ \<Rightarrow> False) vs
          then Some (map fst fs) else None
      | _ \<Rightarrow> None)"

subsection \<open>Encoder (section 4.3)\<close>

text \<open>
  Modelled from the spec: the lines of a value, each with its depth. A value is written
  at the root, as the field of an object, or as the item of a list. The spec gives no
  rule for quoting keys: a key is written by the rule for strings. It does not spell the
  mark of a list item nor the marker of an empty object either: an item is led by a
  hyphen (\<^verbatim>\<open>- \<close> before a scalar or an array header, a lone \<^verbatim>\<open>-\<close> above the fields of an
  object), and an empty object is its header line with nothing below it (no line at all
  at the root).
\<close>

type_synonym line = "nat \<times> string"

datatype place = Root | Field string | Item

fun join :: "string \<Rightarrow> string list \<Rightarrow> string" where
  "join sep [] = []"
| "join sep [x] = x"
| "join sep (x # y # ys) = x @ sep @ join sep (y # ys)"

fun lead :: "char \<Rightarrow> place \<Rightarrow> string" where
  "lead d Root = []"
| "lead d (Field k) = encode_string d k"
| "lead d Item = ''- ''"

definition header :: "char \<Rightarrow> place \<Rightarrow> nat \<Rightarrow> string list option \<Rightarrow> string" where
  "header d p n names =
     lead d p @ ''['' @ digits n @ '']''
     @ (case names of
          None \<Rightarrow> []
        | Some fs \<Rightarrow> ''{'' @ join [d] (map (encode_string d) fs) @ ''}'')
     @ '':''"

fun row :: "char \<Rightarrow> Value \<Rightarrow> string" where
  "row d (Object fs) = join [d] (map (\<lambda>f. encode_scalar d (snd f)) fs)"
| "row d v = []"

fun encode_in :: "char \<Rightarrow> nat \<Rightarrow> place \<Rightarrow> Value \<Rightarrow> line list" where
  "encode_in d depth p (Array vs) =
     (depth, header d p (length vs) (tabular_fields vs))
     # (case tabular_fields vs of
          Some fs \<Rightarrow> map (\<lambda>v. (Suc depth, row d v)) vs
        | None \<Rightarrow> concat (map (encode_in d (Suc depth) Item) vs))"
| "encode_in d depth Root (Object fs) =
     concat (map (\<lambda>f. encode_in d depth (Field (fst f)) (snd f)) fs)"
| "encode_in d depth (Field k) (Object fs) =
     (depth, encode_string d k @ '':'')
     # concat (map (\<lambda>f. encode_in d (Suc depth) (Field (fst f)) (snd f)) fs)"
| "encode_in d depth Item (Object fs) =
     (depth, ''-'')
     # concat (map (\<lambda>f. encode_in d (Suc depth) (Field (fst f)) (snd f)) fs)"
| "encode_in d depth Root v = [(depth, encode_scalar d v)]"
| "encode_in d depth (Field k) v = [(depth, encode_string d k @ '': '' @ encode_scalar d v)]"
| "encode_in d depth Item v = [(depth, ''- '' @ encode_scalar d v)]"

definition render_lines :: "nat \<Rightarrow> line list \<Rightarrow> string" where
  "render_lines ind ls =
     join [newline] (map (\<lambda>l. replicate (fst l * ind) (CHR '' '') @ snd l) ls)"

fun representable :: "Value \<Rightarrow> bool" where
  "representable (Number NonFinite) = False"
| "representable (Array vs) = (\<forall>v \<in> set vs. representable v)"
| "representable (Object fs) = (\<forall>f \<in> set fs. representable (snd f))"
| "representable v = True"

definition OutsideModel :: exn where
  "OutsideModel = Exn ''outside the model''"

text \<open>
  Modelled from the spec: \<^verbatim>\<open>encode(value, options)\<close> of section 6, with the defaults
  \<^verbatim>\<open>delimiter = ','\<close> and \<^verbatim>\<open>indent = 2\<close>. It fails with a ValueError on a value that holds
  a non-finite number.
\<close>

definition encode :: "Value \<Rightarrow> encode_options \<Rightarrow> exn + string" where
  "encode v opts =
     (let d = (case delimiter opts of None \<Rightarrow> CHR '','' | Some c \<Rightarrow> c);
          ind = (case indent opts of None \<Rightarrow> 2 | Some n \<Rightarrow> n)
      in if keyFolding opts = Some FoldSafe \<or> ind = 0
            \<or> \<not> (d = CHR '','' \<or> d = tab \<or> d = CHR ''|'')
         then Inl OutsideModel
         else if \<not> representable v then Inl ValueError
         else Inr (render_lines ind (encode_in d 0 Root v)))"

subsection \<open>Decoder (section 4.4)\<close>

text \<open>
  Modelled from the spec: tokenization. The text is split into physical lines; a blank
  line is skipped; the depth of a line is its count of leading spaces divided by
  \<^verbatim>\<open>indentSize\<close>. In strict mode the count must be a multiple of \<^verbatim>\<open>indentSize\<close> and the
  depth at most one more than that of the line before (the first line is at depth 0), else
  the call fails with an IndentationError. The spec leaves the relaxed mode open: here it
  rounds the depth down and puts a line that skips depths one below the line before.
\<close>

fun split_lines :: "string \<Rightarrow> string \<Rightarrow> string list" where
  "split_lines acc [] = [rev acc]"
| "split_lines acc (c # cs) =
     (if c = newline then rev acc # split_lines [] cs else split_lines (c # acc) cs)"

fun scan_lines :: "bool \<Rightarrow> nat \<Rightarrow> nat \<Rightarrow> string list \<Rightarrow> exn + line list" where
  "scan_lines st n limit [] = Inr []"
| "scan_lines st n limit (l # ls) =
     (if list_all is_space l then scan_lines st n limit ls
      else
        let sp = length (takeWhile (\<lambda>c. c = CHR '' '') l);
            dp = (if st then sp div n else min (sp div n) limit)
        in if st \<and> (sp mod n \<noteq> 0 \<or> limit < dp) then Inl IndentationError
           else (case scan_lines st n (Suc dp) ls of
                   Inl e \<Rightarrow> Inl e
                 | Inr rest \<Rightarrow> Inr ((dp, drop sp l) # rest)))"

text \<open>
  Modelled from the spec: the open-ancestor stack. A line at depth \<open>d\<close> closes the open
  nodes at depth \<open>d\<close> and deeper and becomes a child of the open node at depth \<open>d - 1\<close>.
  The bottom frame of the stack is the root; a frame holds the text of its line and the
  children attached so far, latest first.
\<close>

datatype node = Node string "node list"

type_synonym frame = "string \<times> node list"

fun pop1 :: "frame list \<Rightarrow> frame list" where
  "pop1 ((t, kids) # (t', kids') # st) = (t', Node t (rev kids) # kids') # st"
| "pop1 st = st"

primrec pops :: "nat \<Rightarrow> frame list \<Rightarrow> frame list" where
  "pops 0 st = st"
| "pops (Suc n) st = pops n (pop1 st)"

definition push :: "frame list \<Rightarrow> line \<Rightarrow> frame list" where
  "push st l = (snd l, []) # pops (length st - Suc (fst l)) st"

definition forest :: "line list \<Rightarrow> node list" where
  "forest ls =
     (let st = foldl push [([], [])] ls
      in case pops (length st - 1) st of
           [(t, kids)] \<Rightarrow> rev kids
         | _ \<Rightarrow> [])"

text \<open>
  Modelled from the spec: the forms of a line: \<^verbatim>\<open>key: value\<close>, \<^verbatim>\<open>key:\<close>, an array header
  \<^verbatim>\<open>key[N]:\<close> or \<^verbatim>\<open>key[N]{f1,f2}:\<close> (without a key at the root and in a list item), or a
  lone token. The decoder of section 6 has no delimiter option: a row and a field list
  are split at the comma, outside quotes.
\<close>

datatype line_form =
  Plain string
  | KeyValue string string
  | KeyOnly string
  | Header "string option" nat "string list option"

fun split_fields :: "char \<Rightarrow> bool \<Rightarrow> string \<Rightarrow> string \<Rightarrow> string list option" where
  "split_fields d q acc [] = (if q then None else Some [rev acc])"
| "split_fields d True acc [c] =
     (if c = dquote then split_fields d False (c # acc) [] else None)"
| "split_fields d True acc (c # e # cs) =
     (if c = backslash then split_fields d True (e # c # acc) cs
      else if c = dquote then split_fields d False (c # acc) (e # cs)
      else split_fields d True (c # acc) (e # cs))"
| "split_fields d False acc (c # cs) =
     (if c = d then map_option (\<lambda>ts. rev acc # ts) (split_fields d False [] cs)
      else if c = dquote then split_fields d True (c # acc) cs
      else split_fields d False (c # acc) cs)"

definition decode_key :: "string \<Rightarrow> exn + string" where
  "decode_key raw =
     (case trim raw of
        [] \<Rightarrow> Inl SyntaxError
      | c # cs \<Rightarrow>
          if c = dquote then
            (case scan_quoted [] cs of Some (k, []) \<Rightarrow> Inr k | _ \<Rightarrow> Inl SyntaxError)
          else Inr (c # cs))"

fun decode_keys :: "string list \<Rightarrow> exn + string list" where
  "decode_keys [] = Inr []"
| "decode_keys (t # ts) =
     (case decode_key t of
        Inl e \<Rightarrow> Inl e
      | Inr k \<Rightarrow> (case decode_keys ts of Inl e \<Rightarrow> Inl e | Inr ks \<Rightarrow> Inr (k # ks)))"

definition parse_header :: "char \<Rightarrow> string option \<Rightarrow> string \<Rightarrow> exn + line_form" where
  "parse_header d key rest =
     (let ds = takeWhile is_digit rest;
          r1 = dropWhile is_digit rest
      in if ds = [] then Inl SyntaxError
         else case r1 of
           c # r2 \<Rightarrow>
             if c \<noteq> CHR '']'' then Inl SyntaxError
             else (case r2 of
                 c' # r3 \<Rightarrow>
                   if c' = CHR ''{'' then
                     (let inner = takeWhile (\<lambda>x. x \<noteq> CHR ''}'') r3;
                          r4 = dropWhile (\<lambda>x. x \<noteq> CHR ''}'') r3
                      in if trim r4 \<noteq> ''}:'' then Inl SyntaxError
                         else case split_fields d False [] inner of
                           None \<Rightarrow> Inl SyntaxError
                         | Some toks \<Rightarrow>
                             (case decode_keys toks of
                                Inl e \<Rightarrow> Inl e
                              | Inr ks \<Rightarrow> Inr (Header key (parse_nat ds) (Some ks))))
                   else if trim r2 = '':'' then Inr (Header key (parse_nat ds) None)
                   else Inl SyntaxError
               | [] \<Rightarrow> Inl SyntaxError)
         | [] \<Rightarrow> Inl SyntaxError)"

definition after_key :: "char \<Rightarrow> bool \<Rightarrow> string \<Rightarrow> string \<Rightarrow> string \<Rightarrow> exn + line_form" where
  "after_key d quoted key rest whole =
     (case rest of
        [] \<Rightarrow> Inr (Plain whole)
      | c # r \<Rightarrow>
          if c = CHR '':'' then
            (if \<not> quoted \<and> key = [] then Inl SyntaxError
             else if trim r = [] then Inr (KeyOnly key)
             else Inr (KeyValue key (trim r)))
          else if c = CHR ''['' then
            parse_header d (if \<not> quoted \<and> key = [] then None else Some key) r
          else Inl SyntaxError)"

definition parse_line :: "char \<Rightarrow> string \<Rightarrow> exn + line_form" where
  "parse_line d text =
     (case text of
        [] \<Rightarrow> Inr (Plain [])
      | c # cs \<Rightarrow>
          if c = dquote then
            (case scan_quoted [] cs of
               None \<Rightarrow> Inl SyntaxError
             | Some (k, rest) \<Rightarrow> after_key d True k rest text)
          else
            after_key d False
              (trim (takeWhile (\<lambda>x. x \<noteq> CHR '':'' \<and> x \<noteq> CHR ''['') text))
              (dropWhile (\<lambda>x. x \<noteq> CHR '':'' \<and> x \<noteq> CHR ''['') text) text)"

text \<open>
  Modelled from the spec: the state \<open>ExpectTabularRows(remaining, fields)\<close>. Each row is
  split into exactly as many tokens as the header has fields, else the call fails with a
  LengthMismatchError; in strict mode exactly \<open>N\<close> rows must appear, else it fails with a
  LengthMismatchError as well (sections 4.4, 7 and 8; the rows of a block are the children
  of its header, so the block is never left pending at the end of the input).
\<close>

fun decode_tokens :: "string list \<Rightarrow> exn + Value list" where
  "decode_tokens [] = Inr []"
| "decode_tokens (t # ts) =
     (case decode_token t of
        Inl e \<Rightarrow> Inl e
      | Inr v \<Rightarrow> (case decode_tokens ts of Inl e \<Rightarrow> Inl e | Inr vs \<Rightarrow> Inr (v # vs)))"

fun decode_rows :: "bool \<Rightarrow> string list \<Rightarrow> nat \<Rightarrow> node list \<Rightarrow> exn + Value list" where
  "decode_rows st names remaining [] =
     (if st \<and> 0 < remaining then Inl LengthMismatchError else Inr [])"
| "decode_rows st names remaining (Node t kids # rest) =
     (if st \<and> remaining = 0 then Inl LengthMismatchError
      else if kids \<noteq> [] then Inl SyntaxError
      else case split_fields (CHR '','') False [] t of
        None \<Rightarrow> Inl SyntaxError
      | Some toks \<Rightarrow>
          if length toks \<noteq> length names then Inl LengthMismatchError
          else (case decode_tokens toks of
                  Inl e \<Rightarrow> Inl e
                | Inr vs \<Rightarrow>
                    (case decode_rows st names (remaining - 1) rest of
                       Inl e \<Rightarrow> Inl e
                     | Inr os \<Rightarrow> Inr (Object (zip names vs) # os))))"

text \<open>
  Modelled from the spec: a data row of a tabular block with the given header fields, as
  a line of text without its indentation. It is one physical line that is not blank
  (blank lines are skipped and never counted as data rows) and does not begin with a
  space, it splits at the delimiter outside quotes, and when the tokens are as many as
  the header's fields each of them decodes to a scalar.
\<close>

definition data_row :: "string list \<Rightarrow> string \<Rightarrow> bool" where
  "data_row names t \<longleftrightarrow>
     newline \<notin> set t \<and> \<not> list_all is_space t \<and> take 1 t \<noteq> '' ''
     \<and> (case split_fields (CHR '','') False [] t of
          None \<Rightarrow> False
        | Some toks \<Rightarrow>
            length toks \<noteq> length names
            \<or> (case decode_tokens toks of Inr vs \<Rightarrow> True | Inl e \<Rightarrow> False))"

text \<open>
  Modelled from the spec: the states \<open>ExpectHeader\<close>, \<open>ExpectChildBlock\<close> and
  \<open>ExpectListItems(remaining)\<close>, read off the forest: the fields of an object, one field,
  the items of a list, one item. At the root, a lone token is a scalar, a header without a
  key opens the root array, an empty text is the empty object, and anything else is the
  field list of the root object.
\<close>

fun decode_fields :: "bool \<Rightarrow> node list \<Rightarrow> exn + (string \<times> Value) list"
  and decode_field :: "bool \<Rightarrow> node \<Rightarrow> exn + (string \<times> Value)"
  and decode_items :: "bool \<Rightarrow> nat \<Rightarrow> node list \<Rightarrow> exn + Value list"
  and decode_item :: "bool \<Rightarrow> node \<Rightarrow> exn + Value" where
  "decode_fields st [] = Inr []"
| "decode_fields st (nd # rest) =
     (case decode_field st nd of
        Inl e \<Rightarrow> Inl e
      | Inr f \<Rightarrow> (case decode_fields st rest of Inl e \<Rightarrow> Inl e | Inr fs \<Rightarrow> Inr (f # fs)))"
| "decode_field st (Node t kids) =
     (case parse_line (CHR '','') t of
        Inl e \<Rightarrow> Inl e
      | Inr (Plain tok) \<Rightarrow> Inl SyntaxError
      | Inr (KeyValue k tok) \<Rightarrow>
          if kids \<noteq> [] then Inl SyntaxError
          else (case decode_token tok of Inl e \<Rightarrow> Inl e | Inr v \<Rightarrow> Inr (k, v))
      | Inr (KeyOnly k) \<Rightarrow>
          (case decode_fields st kids of Inl e \<Rightarrow> Inl e | Inr fs \<Rightarrow> Inr (k, Object fs))
      | Inr (Header None n fo) \<Rightarrow> Inl SyntaxError
      | Inr (Header (Some k) n (Some names)) \<Rightarrow>
          (case decode_rows st names n kids of Inl e \<Rightarrow> Inl e | Inr vs \<Rightarrow> Inr (k, Array vs))
      | Inr (Header (Some k) n None) \<Rightarrow>
          (case decode_items st n kids of Inl e \<Rightarrow> Inl e | Inr vs \<Rightarrow> Inr (k, Array vs)))"
| "decode_items st remaining [] =
     (if st \<and> 0 < remaining then Inl LengthMismatchError else Inr [])"
| "decode_items st remaining (nd # rest) =
     (if st \<and> remaining = 0 then Inl LengthMismatchError
      else case decode_item st nd of
        Inl e \<Rightarrow> Inl e
      | Inr v \<Rightarrow>
          (case decode_items st (remaining - 1) rest of
             Inl e \<Rightarrow> Inl e
           | Inr vs \<Rightarrow> Inr (v # vs)))"
| "decode_item st (Node t kids) =
     (if t = ''-'' then
        (case decode_fields st kids of Inl e \<Rightarrow> Inl e | Inr fs \<Rightarrow> Inr (Object fs))
      else if take 2 t \<noteq> ''- '' then Inl SyntaxError
      else case parse_line (CHR '','') (drop 2 t) of
        Inl e \<Rightarrow> Inl e
      | Inr (Plain tok) \<Rightarrow> if kids \<noteq> [] then Inl SyntaxError else decode_token tok
      | Inr (Header None n (Some names)) \<Rightarrow>
          (case decode_rows st names n kids of Inl e \<Rightarrow> Inl e | Inr vs \<Rightarrow> Inr (Array vs))
      | Inr (Header None n None) \<Rightarrow>
          (case decode_items st n kids of Inl e \<Rightarrow> Inl e | Inr vs \<Rightarrow> Inr (Array vs))
      | Inr other \<Rightarrow> Inl SyntaxError)"

definition decode_root :: "bool \<Rightarrow> node list \<Rightarrow> exn + Value" where
  "decode_root st nodes =
     (case nodes of
        [] \<Rightarrow> Inr (Object [])
      | Node t kids # others \<Rightarrow>
          (case parse_line (CHR '','') t of
             Inl e \<Rightarrow> Inl e
           | Inr (Plain tok) \<Rightarrow>
               if kids \<noteq> [] \<or> others \<noteq> [] then Inl SyntaxError else decode_token tok
           | Inr (Header None n (Some names)) \<Rightarrow>
               (case decode_rows st names n kids of
                  Inl e \<Rightarrow> Inl e
                | Inr vs \<Rightarrow> if others \<noteq> [] then Inl SyntaxError else Inr (Array vs))
           | Inr (Header None n None) \<Rightarrow>
               (case decode_items st n kids of
                  Inl e \<Rightarrow> Inl e
                | Inr vs \<Rightarrow> if others \<noteq> [] then Inl SyntaxError else Inr (Array vs))
           | Inr other \<Rightarrow>
               (case decode_fields st nodes of Inl e \<Rightarrow> Inl e | Inr fs \<Rightarrow> Inr (Object fs))))"

text \<open>
  Modelled from the spec: \<^verbatim>\<open>decode(text, options)\<close> of section 6, with the defaults
  \<^verbatim>\<open>strict = true\<close> and \<^verbatim>\<open>indentSize = 2\<close>.
\<close>

definition decode :: "string \<Rightarrow> decode_options \<Rightarrow> exn + Value" where
  "decode text opts =
     (let st = (case strict opts of None \<Rightarrow> True | Some b \<Rightarrow> b);
          n = (case indentSize opts of None \<Rightarrow> 2 | Some n \<Rightarrow> n)
      in if expandPaths opts = Some ExpandSafe \<or> n = 0 then Inl OutsideModel
         else case scan_lines st n 0 (split_lines [] text) of
           Inl e \<Rightarrow> Inl e
         | Inr ls \<Rightarrow> decode_root st (forest ls))"

text \<open>
  Modelled from the spec: the module that toon-codec.js requires, made of the two
  functions above.
\<close>

definition toon_package :: "Value toon_module" where
  "toon_package = \<lparr>toon_encode = encode, toon_decode = decode\<rparr>"

section \<open>Concrete values\<close>

text \<open>
  A small runtime over strings, some upstream responses and requests, and the array of
  the README's example, used to run the definitions on concrete inputs.
\<close>

definition demo_runtime :: "string runtime" where
  "demo_runtime =
     \<lparr>toString_utf8 = (\<lambda>b. b),
      JSON_parse = (\<lambda>s. if s = ''[]'' \<or> s = ''{}'' then Inr s else Inl (Exn ''SyntaxError'')),
      toon = \<lparr>toon_encode = (\<lambda>v opts. if v = ''[]'' then Inr ''[0]:'' else Inl (Exn ''TypeError'')),
              toon_decode = (\<lambda>s opts. Inl (Exn ''SyntaxError''))\<rparr>,
      CACHE_TTL = 300\<rparr>"

definition demo_json :: proxy_response where
  "demo_json =
     \<lparr>upstream_status = 200,
      upstream_headers = [''content-type'' \<mapsto> ''application/json; charset=utf-8'']\<rparr>"

definition demo_html :: proxy_response where
  "demo_html = \<lparr>upstream_status = 200, upstream_headers = [''content-type'' \<mapsto> ''text/html'']\<rparr>"

definition demo_untyped :: proxy_response where
  "demo_untyped = \<lparr>upstream_status = 200, upstream_headers = Map.empty\<rparr>"

definition demo_get :: request where
  "demo_get = \<lparr>method = ''GET'', path = ''/posts'', originalUrl = ''/posts?page=1''\<rparr>"

definition demo_post :: request where
  "demo_post = \<lparr>method = ''POST'', path = ''/posts'', originalUrl = ''/posts''\<rparr>"

definition demo_res :: response where
  "demo_res = \<lparr>statusCode = 200, headers = Map.empty\<rparr>"

definition demo_redis :: "bool \<Rightarrow> redis_client" where
  "demo_redis c = \<lparr>redisConnected = c, keyspace = Map.empty, answering = True, sent = []\<rparr>"

definition users :: Value where
  "users =
     Array [Object [(''id'', Number (Decimal 1 0)), (''name'', String ''Alice'')],
            Object [(''id'', Number (Decimal 2 0)), (''name'', String ''Bob'')]]"

definition demo_events :: "event list" where
  "demo_events =
     [Change (Signal OnConnect),
      Request demo_get demo_res [Signal OnClose, Signal OnReady] (Reply demo_json ''[]'')]"


section \<open>Properties of the gateway\<close>

lemma lower_names:
  "map lower_char ''Content-Type'' = ''content-type''"
  "map lower_char ''X-Cache'' = ''x-cache''"
  "map lower_char ''content-length'' = ''content-length''"
  "map lower_char ''etag'' = ''etag''"
  by code_simp+

lemma setHeader_simps:
  "setHeader ''Content-Type'' v res = res\<lparr>headers := (headers res)(''content-type'' \<mapsto> v)\<rparr>"
  "setHeader ''X-Cache'' v res = res\<lparr>headers := (headers res)(''x-cache'' \<mapsto> v)\<rparr>"
  by (simp_all only: setHeader_def lower_names)

lemma removeHeader_simps:
  "removeHeader ''content-length'' res = res\<lparr>headers := (headers res)(''content-length'' := None)\<rparr>"
  "removeHeader ''etag'' res = res\<lparr>headers := (headers res)(''etag'' := None)\<rparr>"
  by (simp_all only: removeHeader_def lower_names)

lemma includes_nonempty: "string_includes s (c # cs) \<Longrightarrow> s \<noteq> []"
  by (cases s) auto

lemmas demo_defs =
  run_def demo_events_def startup_def handle_def cacheMiddleware_def
  isRedisConnected_def redis_get_def redis_set_def onProxyRes_def copyHeaders_def
  demo_get_def demo_post_def demo_res_def demo_json_def demo_html_def demo_untyped_def
  demo_redis_def demo_runtime_def encodeToToon_def
  empty_encode_options_def generateKey_def setHeader_simps removeHeader_simps Let_def

lemma cacheMiddleware_keyspace:
  "keyspace (snd (snd (cacheMiddleware r req res))) = keyspace r"
  by (auto simp: cacheMiddleware_def redis_get_def Let_def split: sum.splits option.splits list.splits prod.splits)

lemma statusCode_headers [simp]:
  "statusCode (setHeader n v res) = statusCode res"
  "statusCode (removeHeader n res) = statusCode res"
  by (simp_all add: setHeader_def removeHeader_def)

lemma onProxyRes_store:
  assumes "onProxyRes rt r buf proxyRes req res = (body, res', r')"
  shows "keyspace r' = keyspace r \<and> sent r' = sent r
       \<or> (method req = ''GET'' \<and> statusCode res = 200 \<and> isRedisConnected r
          \<and> statusCode res' = 200
          \<and> (\<exists>toonBody. body = Text toonBody
                \<and> sent r' = sent r @ [SET (generateKey req) toonBody (CACHE_TTL rt)]
                \<and> (keyspace r' = keyspace r
                   \<or> keyspace r' = (keyspace r)(generateKey req \<mapsto> toonBody))))"
  using assms
  by (auto simp: onProxyRes_def redis_set_def Let_def split: option.splits sum.splits if_splits)


lemma redis_on_keyspace [simp]: "keyspace (redis_on e r) = keyspace r"
  by (cases e) simp_all

lemma apply_change_keyspace:
  "keyspace (apply_change r c) key = Some val \<Longrightarrow> keyspace r key = Some val"
  by (cases c) (simp_all split: if_splits)

lemma changes_keyspace:
  "keyspace (foldl apply_change r cs) key = Some val \<Longrightarrow> keyspace r key = Some val"
  by (induction cs arbitrary: r) (auto dest: apply_change_keyspace)

lemma handle_keyspace:
  assumes "handle rt r req res between up = (ex, r')"
      and "keyspace r' key = Some val"
  shows "keyspace r key = Some val \<or> backs ex key val"
proof (cases "cacheMiddleware r req res")
  case (fields oc res1 r1)
  have k1: "keyspace r1 = keyspace r"
    using cacheMiddleware_keyspace [of r req res] fields by simp
  show ?thesis
  proof (cases oc)
    case (Send cachedData)
    with assms fields k1 show ?thesis by (auto simp: handle_def)
  next
    case Next
    show ?thesis
    proof (cases up)
      case Unreachable
      with assms(1) fields Next have "r' = foldl apply_change r1 between"
        by (auto simp: handle_def split: prod.splits)
      with assms(2) k1 show ?thesis
        by (auto dest: changes_keyspace)
    next
      case (Reply proxyRes responseBuffer)
      let ?r2 = "foldl apply_change r1 between"
      obtain body res3 r3 where
        o: "onProxyRes rt ?r2 responseBuffer proxyRes req (copyHeaders proxyRes res1)
              = (body, res3, r3)"
        by (cases "onProxyRes rt ?r2 responseBuffer proxyRes req (copyHeaders proxyRes res1)")
          auto
      from assms(1) fields Next Reply o
      have ex: "ex = \<lparr>ex_request = req, ex_origin = FromUpstream, ex_response = res3,
                      ex_body = body\<rparr>"
        and r': "r' = r3"
        by (auto simp: handle_def)
      from onProxyRes_store [OF o]
      consider "keyspace r3 = keyspace ?r2"
        | toonBody where "method req = ''GET''" "statusCode res3 = 200" "body = Text toonBody"
            "keyspace r3 = (keyspace ?r2)(generateKey req \<mapsto> toonBody)"
        by auto
      then show ?thesis
      proof cases
        case 1
        with assms(2) r' k1 show ?thesis
          by (auto dest: changes_keyspace)
      next
        case 2
        show ?thesis
        proof (cases "key = generateKey req")
          case True
          with 2 assms(2) r' ex show ?thesis
            by (simp add: backs_def)
        next
          case False
          with 2 assms(2) r' k1 show ?thesis
            by (auto dest: changes_keyspace)
        qed
      qed
    qed
  qed
qed

lemma step_cache_inv:
  assumes "cache_inv g"
  shows "cache_inv (step rt g ev)"
proof (cases ev)
  case (Change c)
  with assms show ?thesis
    by (auto simp: cache_inv_def dest: apply_change_keyspace)
next
  case (Request req res between up)
  obtain ex r' where h: "handle rt (redis g) req res between up = (ex, r')"
    by (cases "handle rt (redis g) req res between up") auto
  have s: "step rt g ev = \<lparr>redis = r', served = served g @ [ex]\<rparr>"
    using Request h by simp
  show ?thesis
    unfolding cache_inv_def s
  proof (intro allI impI)
    fix key val
    assume kv: "keyspace (redis \<lparr>redis = r', served = served g @ [ex]\<rparr>) key = Some val"
    then have "keyspace r' key = Some val" by simp
    from handle_keyspace [OF h this] assms
    have "(\<exists>e \<in> set (served g). backs e key val) \<or> backs ex key val"
      by (auto simp: cache_inv_def)
    then show "\<exists>e \<in> set (served \<lparr>redis = r', served = served g @ [ex]\<rparr>). backs e key val"
      by auto
  qed
qed

lemma run_cache_inv: "cache_inv g \<Longrightarrow> cache_inv (run rt g evs)"
  unfolding run_def
  by (induction evs arbitrary: g) (simp_all add: step_cache_inv)

lemma startup_cache_inv: "cache_inv (startup up)"
  by (simp add: cache_inv_def startup_def)

lemma cacheMiddleware_hit:
  assumes "cacheMiddleware r req res = (Send cachedData, res', r')"
  shows "method req = ''GET'' \<and> keyspace r (generateKey req) = Some cachedData"
  using assms
  by (auto simp: cacheMiddleware_def redis_get_def Let_def
           split: if_splits sum.splits option.splits list.splits)

lemma run_keyspace_backed:
  assumes "keyspace (redis (run rt (startup up) evs)) key = Some val"
  shows "\<exists>ex \<in> set (served (run rt (startup up) evs)). backs ex key val"
  using run_cache_inv [OF startup_cache_inv, of rt up evs] assms
  by (simp add: cache_inv_def)

lemma onProxyRes_store_guard:
  assumes "onProxyRes rt r buf proxyRes req res = (body, res', r')
           \<and> (sent r' \<noteq> sent r \<or> keyspace r' \<noteq> keyspace r)"
  shows "method req = ''GET'' \<and> statusCode res = 200 \<and> isRedisConnected r
          \<and> (\<exists>toonBody. body = Text toonBody
                \<and> sent r' = sent r @ [SET (generateKey req) toonBody (CACHE_TTL rt)]
                \<and> (keyspace r' = keyspace r
                   \<or> keyspace r' = (keyspace r)(generateKey req \<mapsto> toonBody)))"
  using onProxyRes_store [of rt r buf proxyRes req res body res' r'] assms by auto

lemma run_hit_served:
  assumes "cacheMiddleware (redis (run rt (startup up) evs)) req res = (Send cachedData, res', r')"
  shows "\<exists>ex \<in> set (served (run rt (startup up) evs)).
              ex_origin ex = FromUpstream \<and> ex_body ex = Text cachedData
              \<and> method (ex_request ex) = method req
              \<and> originalUrl (ex_request ex) = originalUrl req"
proof -
  from assms have m: "method req = ''GET''"
    and k: "keyspace (redis (run rt (startup up) evs)) (generateKey req) = Some cachedData"
    by (auto dest: cacheMiddleware_hit)
  from run_keyspace_backed [OF k]
  obtain ex where e: "ex \<in> set (served (run rt (startup up) evs))"
    and b: "backs ex (generateKey req) cachedData"
    by auto
  from b m have "ex_origin ex = FromUpstream \<and> ex_body ex = Text cachedData
              \<and> method (ex_request ex) = method req
              \<and> originalUrl (ex_request ex) = originalUrl req"
    by (auto simp: backs_def generateKey_def)
  with e show ?thesis by blast
qed


subsection \<open>The response interceptor\<close>

text \<open>
  C6. When the upstream content type contains \<^verbatim>\<open>application/json\<close> and both
  \<^verbatim>\<open>JSON.parse\<close> of the body and \<^verbatim>\<open>encodeToToon\<close> (called with no options, hence the
  defaults) succeed, the interceptor returns exactly the text \<^verbatim>\<open>encodeToToon\<close> produced
  and the response's Content-Type header is \<^verbatim>\<open>text/toon; charset=utf-8\<close>.
\<close>

theorem onProxyRes_forwards_toon:
  assumes "upstream_headers proxyRes ''content-type'' = Some contentType"
      and "string_includes contentType ''application/json''"
      and "JSON_parse rt (toString_utf8 rt responseBuffer) = Inr jsonBody"
      and "encodeToToon (toon rt) jsonBody empty_encode_options = Inr toonBody"
  shows "fst (onProxyRes rt r responseBuffer proxyRes req res) = Text toonBody \<and>
         headers (fst (snd (onProxyRes rt r responseBuffer proxyRes req res))) ''content-type''
           = Some ''text/toon; charset=utf-8''"
proof -
  from assms(2) have ne: "contentType \<noteq> []" by (rule includes_nonempty)
  show ?thesis
    using assms ne
    by (simp add: onProxyRes_def Let_def setHeader_simps removeHeader_simps)
qed

theorem onProxyRes_forwards_toon_witness:
  "upstream_headers demo_json ''content-type'' = Some ''application/json; charset=utf-8''
   \<and> string_includes ''application/json; charset=utf-8'' ''application/json''
   \<and> JSON_parse demo_runtime (toString_utf8 demo_runtime ''[]'') = Inr ''[]''
   \<and> encodeToToon (toon demo_runtime) ''[]'' empty_encode_options = Inr ''[0]:''
   \<and> fst (onProxyRes demo_runtime (demo_redis True) ''[]'' demo_json demo_get demo_res)
       = Text ''[0]:''
   \<and> headers (fst (snd (onProxyRes demo_runtime (demo_redis True) ''[]'' demo_json demo_get
         demo_res))) ''content-type'' = Some ''text/toon; charset=utf-8''"
proof -
  have h1: "upstream_headers demo_json ''content-type'' = Some ''application/json; charset=utf-8''"
    by (simp add: demo_json_def)
  have h2: "string_includes ''application/json; charset=utf-8'' ''application/json''"
    by simp
  have h3: "JSON_parse demo_runtime (toString_utf8 demo_runtime ''[]'') = Inr ''[]''"
    by (simp add: demo_runtime_def)
  have h4: "encodeToToon (toon demo_runtime) ''[]'' empty_encode_options = Inr ''[0]:''"
    by (simp add: demo_runtime_def encodeToToon_def)
  from onProxyRes_forwards_toon [OF h1 h2 h3 h4] h1 h2 h3 h4 show ?thesis
    by blast
qed

text \<open>
  C8. If the upstream response has no content type or one that does not contain
  \<^verbatim>\<open>application/json\<close>, or if \<^verbatim>\<open>JSON.parse\<close> or \<^verbatim>\<open>encodeToToon\<close> throws, the interceptor
  returns the upstream buffer it was given, byte for byte; it also leaves the response and
  the Redis client as they were.
\<close>

theorem onProxyRes_fallback:
  assumes "upstream_headers proxyRes ''content-type'' = None
         \<or> (\<exists>contentType. upstream_headers proxyRes ''content-type'' = Some contentType
               \<and> \<not> string_includes contentType ''application/json'')
         \<or> (\<exists>err. JSON_parse rt (toString_utf8 rt responseBuffer) = Inl err)
         \<or> (\<exists>jsonBody err. JSON_parse rt (toString_utf8 rt responseBuffer) = Inr jsonBody
               \<and> encodeToToon (toon rt) jsonBody empty_encode_options = Inl err)"
  shows "onProxyRes rt r responseBuffer proxyRes req res = (Buffer responseBuffer, res, r)"
  using assms
  by (auto simp: onProxyRes_def split: option.splits sum.splits)

theorem onProxyRes_fallback_witness:
  "onProxyRes demo_runtime (demo_redis True) ''<p>hi</p>'' demo_untyped demo_get demo_res
     = (Buffer ''<p>hi</p>'', demo_res, demo_redis True)
   \<and> onProxyRes demo_runtime (demo_redis True) ''<p>hi</p>'' demo_html demo_get demo_res
     = (Buffer ''<p>hi</p>'', demo_res, demo_redis True)
   \<and> onProxyRes demo_runtime (demo_redis True) ''{oops'' demo_json demo_get demo_res
     = (Buffer ''{oops'', demo_res, demo_redis True)
   \<and> onProxyRes demo_runtime (demo_redis True) ''{}'' demo_json demo_get demo_res
     = (Buffer ''{}'', demo_res, demo_redis True)"
proof -
  have h1: "upstream_headers demo_untyped ''content-type'' = None"
    by (simp add: demo_untyped_def)
  have h2: "\<exists>contentType. upstream_headers demo_html ''content-type'' = Some contentType
               \<and> \<not> string_includes contentType ''application/json''"
    by (simp add: demo_html_def)
  have h3: "\<exists>err. JSON_parse demo_runtime (toString_utf8 demo_runtime ''{oops'') = Inl err"
    by (simp add: demo_runtime_def)
  have h4: "\<exists>jsonBody err. JSON_parse demo_runtime (toString_utf8 demo_runtime ''{}'') = Inr jsonBody
               \<and> encodeToToon (toon demo_runtime) jsonBody empty_encode_options = Inl err"
    by (simp add: demo_runtime_def encodeToToon_def)
  show ?thesis
    using onProxyRes_fallback [of demo_untyped demo_runtime "''<p>hi</p>''"] h1
      onProxyRes_fallback [of demo_html demo_runtime "''<p>hi</p>''"] h2
      onProxyRes_fallback [of demo_json demo_runtime "''{oops''"] h3
      onProxyRes_fallback [of demo_json demo_runtime "''{}''"] h4
    by blast
qed

subsection \<open>The cache\<close>

text \<open>
  C9. In every state the gateway reaches from an empty Redis, by requests taken one at a
  time and changes of the environment, every value held under a key
  is the text that was returned as the body of an earlier transformed response to a GET
  request with status 200 whose key \<open>generateKey req\<close> is that key; a call of the
  interceptor sends a command to Redis or changes the stored keys only for a GET request
  with response status 200 while Redis is connected, and then the command is the one SET
  of the returned text under \<open>generateKey req\<close> with the configured time to live; and
  whenever the cache middleware answers from the cache, the body it sends was returned
  before by a transformed response to a request with the same method and URL.
\<close>

theorem cache_holds_served_toon:
  "(\<forall>key val. keyspace (redis (run rt (startup up) evs)) key = Some val \<longrightarrow>
      (\<exists>ex \<in> set (served (run rt (startup up) evs)). backs ex key val))
   \<and> (\<forall>r buf proxyRes req res body res' r'.
        onProxyRes rt r buf proxyRes req res = (body, res', r')
        \<and> (sent r' \<noteq> sent r \<or> keyspace r' \<noteq> keyspace r) \<longrightarrow>
          method req = ''GET'' \<and> statusCode res = 200 \<and> isRedisConnected r
          \<and> (\<exists>toonBody. body = Text toonBody
                \<and> sent r' = sent r @ [SET (generateKey req) toonBody (CACHE_TTL rt)]
                \<and> (keyspace r' = keyspace r
                   \<or> keyspace r' = (keyspace r)(generateKey req \<mapsto> toonBody))))
   \<and> (\<forall>req res cachedData res' r'.
        cacheMiddleware (redis (run rt (startup up) evs)) req res = (Send cachedData, res', r') \<longrightarrow>
          (\<exists>ex \<in> set (served (run rt (startup up) evs)).
              ex_origin ex = FromUpstream \<and> ex_body ex = Text cachedData
              \<and> method (ex_request ex) = method req
              \<and> originalUrl (ex_request ex) = originalUrl req))"
  using run_keyspace_backed [of rt up evs] onProxyRes_store_guard [of rt]
    run_hit_served [of rt up evs]
  by blast

theorem cache_holds_served_toon_witness:
  "keyspace (redis (run demo_runtime (startup True) demo_events)) ''toon_cache:GET:/posts?page=1''
     = Some ''[0]:''
   \<and> (\<exists>ex \<in> set (served (run demo_runtime (startup True) demo_events)).
         backs ex ''toon_cache:GET:/posts?page=1'' ''[0]:'')
   \<and> onProxyRes demo_runtime (demo_redis True) ''[]'' demo_json demo_get demo_res
       = (Text ''[0]:'',
          demo_res\<lparr>headers := [''content-type'' \<mapsto> ''text/toon; charset=utf-8'']\<rparr>,
          (demo_redis True)
            \<lparr>keyspace := [''toon_cache:GET:/posts?page=1'' \<mapsto> ''[0]:''],
             sent := [SET ''toon_cache:GET:/posts?page=1'' ''[0]:'' 300]\<rparr>)
   \<and> method demo_get = ''GET'' \<and> statusCode demo_res = 200 \<and> isRedisConnected (demo_redis True)
   \<and> fst (cacheMiddleware (redis (run demo_runtime (startup True) demo_events)) demo_get demo_res)
       = Send ''[0]:''
   \<and> (\<exists>ex \<in> set (served (run demo_runtime (startup True) demo_events)).
         ex_origin ex = FromUpstream \<and> ex_body ex = Text ''[0]:''
         \<and> method (ex_request ex) = ''GET''
         \<and> originalUrl (ex_request ex) = ''/posts?page=1'')"
proof -
  let ?g = "run demo_runtime (startup True) demo_events"
  let ?r' = "(demo_redis True)
            \<lparr>keyspace := [''toon_cache:GET:/posts?page=1'' \<mapsto> ''[0]:''],
             sent := [SET ''toon_cache:GET:/posts?page=1'' ''[0]:'' 300]\<rparr>"
  have k: "keyspace (redis ?g) ''toon_cache:GET:/posts?page=1'' = Some ''[0]:''"
    by (simp add: demo_defs)
  have f: "fst (cacheMiddleware (redis ?g) demo_get demo_res) = Send ''[0]:''"
    by (simp add: demo_defs)
  then have h: "cacheMiddleware (redis ?g) demo_get demo_res
      = (Send ''[0]:'', fst (snd (cacheMiddleware (redis ?g) demo_get demo_res)),
         snd (snd (cacheMiddleware (redis ?g) demo_get demo_res)))"
    by (metis prod.collapse)
  have m: "method demo_get = ''GET''" "originalUrl demo_get = ''/posts?page=1''"
    by (simp_all add: demo_get_def)
  have o: "onProxyRes demo_runtime (demo_redis True) ''[]'' demo_json demo_get demo_res
       = (Text ''[0]:'',
          demo_res\<lparr>headers := [''content-type'' \<mapsto> ''text/toon; charset=utf-8'']\<rparr>, ?r')"
    by (simp add: demo_defs)
  have c: "sent ?r' \<noteq> sent (demo_redis True)"
    by (simp add: demo_redis_def)
  from cache_holds_served_toon [of demo_runtime True demo_events] k
  have a: "\<exists>ex \<in> set (served ?g). backs ex ''toon_cache:GET:/posts?page=1'' ''[0]:''"
    by blast
  from cache_holds_served_toon [of demo_runtime True demo_events] o c
  have g: "method demo_get = ''GET'' \<and> statusCode demo_res = 200
      \<and> isRedisConnected (demo_redis True)"
    by blast
  from cache_holds_served_toon [of demo_runtime True demo_events] h
  have b: "\<exists>ex \<in> set (served ?g). ex_origin ex = FromUpstream \<and> ex_body ex = Text ''[0]:''
         \<and> method (ex_request ex) = method demo_get
         \<and> originalUrl (ex_request ex) = originalUrl demo_get"
    by blast
  from k a o g f b m show ?thesis by simp
qed

text \<open>
  C10, as the code has it. For a request whose method is not GET, or whose path is
  \<^verbatim>\<open>/health\<close>, or that arrives while Redis is disconnected, the cache middleware calls
  \<^verbatim>\<open>next()\<close> and sends no command to Redis (the client is left as it was). It sets
  X-Cache to \<^verbatim>\<open>UNAVAILABLE\<close> when it reaches the connection test, that is for a GET
  request whose path is not \<^verbatim>\<open>/health\<close>; for the other requests it returns before that
  test and leaves the response untouched.
\<close>

theorem cacheMiddleware_bypass:
  assumes "method req \<noteq> ''GET'' \<or> path req = ''/health'' \<or> \<not> isRedisConnected r"
  shows "fst (cacheMiddleware r req res) = Next
       \<and> snd (snd (cacheMiddleware r req res)) = r
       \<and> (if method req = ''GET'' \<and> path req \<noteq> ''/health''
          then fst (snd (cacheMiddleware r req res)) = setHeader ''X-Cache'' ''UNAVAILABLE'' res
          else fst (snd (cacheMiddleware r req res)) = res)"
  using assms by (auto simp: cacheMiddleware_def)

theorem cacheMiddleware_bypass_witness:
  "\<not> isRedisConnected (demo_redis False)
   \<and> fst (cacheMiddleware (demo_redis False) demo_get demo_res) = Next
   \<and> snd (snd (cacheMiddleware (demo_redis False) demo_get demo_res)) = demo_redis False
   \<and> headers (fst (snd (cacheMiddleware (demo_redis False) demo_get demo_res))) ''x-cache''
       = Some ''UNAVAILABLE''
   \<and> cacheMiddleware (demo_redis True) demo_post demo_res = (Next, demo_res, demo_redis True)"
proof -
  have d: "\<not> isRedisConnected (demo_redis False)"
    by (simp add: isRedisConnected_def demo_redis_def)
  have g: "method demo_get = ''GET'' \<and> path demo_get \<noteq> ''/health''"
    by (simp add: demo_get_def)
  have p: "method demo_post \<noteq> ''GET''"
    by (simp add: demo_post_def)
  from cacheMiddleware_bypass [of demo_get "demo_redis False" demo_res] d g
  have 1: "fst (cacheMiddleware (demo_redis False) demo_get demo_res) = Next
       \<and> snd (snd (cacheMiddleware (demo_redis False) demo_get demo_res)) = demo_redis False
       \<and> fst (snd (cacheMiddleware (demo_redis False) demo_get demo_res))
           = setHeader ''X-Cache'' ''UNAVAILABLE'' demo_res"
    by simp
  from cacheMiddleware_bypass [of demo_post "demo_redis True" demo_res] p
  have 2: "cacheMiddleware (demo_redis True) demo_post demo_res = (Next, demo_res, demo_redis True)"
    by (simp add: prod_eq_iff)
  from 1 2 d show ?thesis
    by (simp add: setHeader_simps)
qed

text \<open>
  C10, as the claim states it, fails for a POST request that arrives while Redis is
  disconnected: the middleware returns at the method test, before the connection test,
  and X-Cache is not set.
\<close>

theorem cacheMiddleware_post_disconnected:
  "method demo_post \<noteq> ''GET''
   \<and> \<not> isRedisConnected (demo_redis False)
   \<and> cacheMiddleware (demo_redis False) demo_post demo_res = (Next, demo_res, demo_redis False)
   \<and> headers (fst (snd (cacheMiddleware (demo_redis False) demo_post demo_res))) ''x-cache''
       \<noteq> Some ''UNAVAILABLE''"
  by (simp add: cacheMiddleware_def isRedisConnected_def demo_post_def demo_redis_def demo_res_def)

section \<open>Properties of the codec as the spec describes it\<close>

text \<open>
  The theorems of this section are about \<open>toon_package\<close>, the model of the package made
  from the spec, called through the two functions of toon-codec.js.
\<close>

lemma decode_rows_strict_length:
  "decode_rows True names n rows = Inr vs \<Longrightarrow> length rows = n \<and> length vs = n"
proof (induction rows arbitrary: n vs)
  case Nil
  then show ?case by (simp split: if_splits)
next
  case (Cons nd rows)
  obtain t kids where nd: "nd = Node t kids" by (cases nd)
  from Cons.prems nd obtain os where
    r: "decode_rows True names (n - 1) rows = Inr os" and n: "n \<noteq> 0" and vs: "length vs = Suc (length os)"
    by (auto split: if_splits option.splits sum.splits)
  from Cons.IH [OF r] n vs show ?case by simp
qed

lemma dquote_not_space: "\<not> is_space dquote"
  by (simp add: is_space_def dquote_def tab_def newline_def carriage_return_def)

lemma trim_id:
  assumes "t \<noteq> []" "\<not> is_space (hd t)" "\<not> is_space (last t)"
  shows "trim t = t"
proof -
  from assms have 1: "dropWhile is_space t = t" by (cases t) auto
  from assms have "rev t \<noteq> []" "\<not> is_space (hd (rev t))" by (simp_all add: hd_rev)
  then have 2: "dropWhile is_space (rev t) = rev t" by (cases "rev t") auto
  show ?thesis by (simp add: trim_def 1 2)
qed

lemma scan_quoted_escape:
  "scan_quoted acc (escape s @ [dquote]) = Some (rev acc @ s, [])"
proof (induction s arbitrary: acc)
  case Nil
  show ?case by (simp add: escape_def)
next
  case (Cons c s)
  obtain e cs where tl: "escape s @ [dquote] = e # cs"
    by (cases "escape s @ [dquote]") auto
  have esc: "escape (c # s) = (if c = dquote \<or> c = backslash then [backslash, c] else [c]) @ escape s"
    by (simp add: escape_def)
  have bq: "backslash \<noteq> dquote" by (simp add: backslash_def dquote_def)
  show ?case
  proof (cases "c = dquote \<or> c = backslash")
    case True
    then have "scan_quoted acc (escape (c # s) @ [dquote])
        = scan_quoted (c # acc) (escape s @ [dquote])"
      using bq by (auto simp: esc)
    then show ?thesis by (simp add: Cons.IH)
  next
    case False
    then have "scan_quoted acc (escape (c # s) @ [dquote])
        = scan_quoted (c # acc) (escape s @ [dquote])"
      by (simp add: esc tl)
    then show ?thesis by (simp add: Cons.IH)
  qed
qed

lemma decode_token_quoted:
  "decode_token ([dquote] @ escape s @ [dquote]) = Inr (String s)"
proof -
  have "trim ([dquote] @ escape s @ [dquote]) = [dquote] @ escape s @ [dquote]"
    by (rule trim_id) (simp_all add: dquote_not_space)
  then show ?thesis
    by (simp add: decode_token_def scan_quoted_escape)
qed

text \<open>
  C2, as the spec's encoder has it. Encoding the array of the two objects
  \<^verbatim>\<open>{"id":1,"name":"Alice"}\<close> and \<^verbatim>\<open>{"id":2,"name":"Bob"}\<close> with default options gives three
  lines: the header \<^verbatim>\<open>[2]{id,name}:\<close> at depth 0 and the rows \<^verbatim>\<open>1,Alice\<close> and \<^verbatim>\<open>2,Bob\<close> at
  depth 1, one comma-joined row per element. Section 4.3 puts the rows one indent level
  below the header, so in the text each row starts with two spaces.
\<close>

theorem encode_users_tabular:
  "encode_in (CHR '','') 0 Root users
     = [(0, ''[2]{id,name}:''), (1, ''1,Alice''), (1, ''2,Bob'')]
   \<and> encodeToToon toon_package users empty_encode_options
     = Inr ''[2]{id,name}:\<newline>  1,Alice\<newline>  2,Bob''"
  by code_simp

text \<open>
  C2, as the claim states it, gives the rows without their indentation; that text is not
  what the encoder returns.
\<close>

theorem encode_users_rows_indented:
  "encodeToToon toon_package users empty_encode_options
     \<noteq> Inr ''[2]{id,name}:\<newline>1,Alice\<newline>2,Bob''"
  by code_simp

lemma decode_rows_short:
  assumes "\<forall>r \<in> set rows. data_row names r" "length rows < n"
  shows "decode_rows True names n (map (\<lambda>r. Node r []) rows) = Inl LengthMismatchError"
  using assms
proof (induction rows arbitrary: n)
  case Nil
  then show ?case by simp
next
  case (Cons r rows)
  from Cons.prems have n: "n \<noteq> 0" and len: "length rows < n - 1"
    and rest: "\<forall>r \<in> set rows. data_row names r" and d: "data_row names r"
    by auto
  from d obtain toks where s: "split_fields (CHR '','') False [] r = Some toks"
    and ok: "length toks \<noteq> length names \<or> (\<exists>vs. decode_tokens toks = Inr vs)"
    by (auto simp: data_row_def split: option.splits sum.splits)
  show ?case
  proof (cases "length toks = length names")
    case False
    with n s show ?thesis by simp
  next
    case True
    with ok obtain vs where "decode_tokens toks = Inr vs" by auto
    with True n s Cons.IH [OF rest len] show ?thesis by simp
  qed
qed

lemma split_lines_line:
  "newline \<notin> set a \<Longrightarrow> split_lines acc (a @ newline # rest) = (rev acc @ a) # split_lines [] rest"
  by (induction a arbitrary: acc) auto

lemma split_lines_last: "newline \<notin> set a \<Longrightarrow> split_lines acc a = [rev acc @ a]"
  by (induction a arbitrary: acc) auto

lemma split_lines_join:
  "ls \<noteq> [] \<Longrightarrow> \<forall>l \<in> set ls. newline \<notin> set l \<Longrightarrow> split_lines [] (join [newline] ls) = ls"
proof (induction "[newline]" ls rule: join.induct)
  case 1
  then show ?case by simp
next
  case (2 x)
  then show ?case by (simp add: split_lines_last)
next
  case (3 x y ys)
  then show ?case
    using split_lines_line [of x "[]" "join [newline] (y # ys)"] by simp
qed

lemma space_is_space: "is_space (CHR '' '')"
  by (simp add: is_space_def)

lemma takeWhile_indent:
  assumes "take 1 r \<noteq> '' ''"
  shows "takeWhile (\<lambda>c. c = CHR '' '') (replicate k (CHR '' '') @ r) = replicate k (CHR '' '')"
proof -
  from assms have "takeWhile (\<lambda>c. c = CHR '' '') r = []" by (cases r) auto
  then show ?thesis by (induction k) simp_all
qed

lemma scan_lines_rows:
  assumes "0 < k" "1 \<le> limit"
      and "\<forall>r \<in> set rows. \<not> list_all is_space r \<and> take 1 r \<noteq> '' ''"
  shows "scan_lines True k limit (map (\<lambda>r. replicate k (CHR '' '') @ r) rows)
           = Inr (map (\<lambda>r. (1, r)) rows)"
  using assms(2,3)
proof (induction rows arbitrary: limit)
  case Nil
  then show ?case by simp
next
  case (Cons r rows)
  from Cons.prems have nb: "\<not> list_all is_space r" and ns: "take 1 r \<noteq> '' ''"
    and rest: "\<forall>r \<in> set rows. \<not> list_all is_space r \<and> take 1 r \<noteq> '' ''"
    by auto
  have ih: "scan_lines True k (Suc (Suc 0)) (map (\<lambda>r. replicate k (CHR '' '') @ r) rows)
           = Inr (map (\<lambda>r. (1, r)) rows)"
    by (rule Cons.IH) (use rest in auto)
  from nb have nb': "list_all is_space (replicate k (CHR '' '') @ r) = False" by simp
  show ?case
    using assms(1) Cons.prems(1) ih
    by (simp add: nb' takeWhile_indent [OF ns] Let_def del: list_all_append)
qed

lemma scan_lines_head:
  assumes "\<not> list_all is_space l" "take 1 l \<noteq> '' ''" "0 < k"
  shows "scan_lines True k 0 (l # ls)
           = (case scan_lines True k (Suc 0) ls of
                Inl e \<Rightarrow> Inl e
              | Inr rest \<Rightarrow> Inr ((0, l) # rest))"
proof -
  from assms(2) have "takeWhile (\<lambda>c. c = CHR '' '') l = []" by (cases l) auto
  with assms(1,3) show ?thesis by (simp add: Let_def split: sum.splits)
qed

lemma forest_open_row:
  "(case pops (length (foldl push [(r, []), (h, kids), ([], [])] (map (\<lambda>x. (1, x)) rs)) - 1)
           (foldl push [(r, []), (h, kids), ([], [])] (map (\<lambda>x. (1, x)) rs)) of
      [(t, ks)] \<Rightarrow> rev ks | _ \<Rightarrow> [])
   = [Node h (rev kids @ Node r [] # map (\<lambda>x. Node x []) rs)]"
proof (induction rs arbitrary: r kids)
  case Nil
  show ?case by (simp add: numeral_2_eq_2)
next
  case (Cons x rs)
  have "push [(r, []), (h, kids), ([], [])] (1, x) = [(x, []), (h, Node r [] # kids), ([], [])]"
    by (simp add: push_def)
  then show ?case using Cons.IH [of x "Node r [] # kids"] by simp
qed

lemma forest_block:
  "forest ((0, h) # map (\<lambda>x. (1, x)) rs) = [Node h (map (\<lambda>x. Node x []) rs)]"
proof (cases rs)
  case Nil
  then show ?thesis by (simp add: forest_def push_def)
next
  case (Cons r rs')
  have "foldl push [([], [])] ((0, h) # map (\<lambda>x. (1, x)) rs)
      = foldl push [(r, []), (h, []), ([], [])] (map (\<lambda>x. (1, x)) rs')"
    using Cons by (simp add: push_def)
  then show ?thesis
    using forest_open_row [of r h "[]" rs'] Cons by (simp add: forest_def Let_def)
qed

lemma header_3a:
  "parse_line (CHR '','') ''[3]{a}:'' = Inr (Header None 3 (Some [''a'']))"
  "\<not> list_all is_space ''[3]{a}:''"
  "take 1 ''[3]{a}:'' \<noteq> '' ''"
  "newline \<notin> set ''[3]{a}:''"
  by code_simp+

text \<open>
  C3. With \<^verbatim>\<open>strict = true\<close>, given explicitly or by default, decoding a block whose
  header declares \<^verbatim>\<open>[3]{a}:\<close> and which is followed by fewer than three data rows, two in
  particular, fails with a LengthMismatchError, whatever the rows hold and whatever the
  indentation size \<open>k\<close> by which they are indented. The same holds wherever a tabular block
  is read: with fewer data rows than the header declares, reading the rows fails with a
  LengthMismatchError.
\<close>

theorem decode_short_table_strict:
  assumes "\<forall>r \<in> set rows. data_row [''a''] r" "length rows < 3"
      and "strict opts \<noteq> Some False" "expandPaths opts \<noteq> Some ExpandSafe"
      and "indentSize opts = None \<and> k = 2 \<or> indentSize opts = Some k \<and> 0 < k"
  shows "decodeFromToon toon_package
           (join [newline] (''[3]{a}:'' # map (\<lambda>r. replicate k (CHR '' '') @ r) rows)) opts
         = Inl LengthMismatchError
       \<and> (\<forall>names n rs. (\<forall>r \<in> set rs. data_row names r) \<and> length rs < n \<longrightarrow>
            decode_rows True names n (map (\<lambda>r. Node r []) rs) = Inl LengthMismatchError)"
proof -
  let ?ls = "''[3]{a}:'' # map (\<lambda>r. replicate k (CHR '' '') @ r) rows"
  have k: "0 < k" and kk: "(case indentSize opts of None \<Rightarrow> 2 | Some n \<Rightarrow> n) = k"
    using assms(5) by auto
  have st: "(case strict opts of None \<Rightarrow> True | Some b \<Rightarrow> b) = True"
    using assms(3) by (cases "strict opts") auto
  have nl: "\<forall>l \<in> set ?ls. newline \<notin> set l"
    using assms(1) by (auto simp: data_row_def header_3a newline_def)
  have sp: "split_lines [] (join [newline] ?ls) = ?ls"
    by (rule split_lines_join) (use nl in auto)
  have rows: "\<forall>r \<in> set rows. \<not> list_all is_space r \<and> take 1 r \<noteq> '' ''"
    using assms(1) by (auto simp: data_row_def)
  have sr: "scan_lines True k (Suc 0) (map (\<lambda>r. replicate k (CHR '' '') @ r) rows)
      = Inr (map (\<lambda>r. (1, r)) rows)"
    by (rule scan_lines_rows [OF k _ rows]) simp
  have sc: "scan_lines True k 0 ?ls = Inr ((0, ''[3]{a}:'') # map (\<lambda>r. (1, r)) rows)"
    by (simp only: scan_lines_head [OF header_3a(2) header_3a(3) k] sr sum.case)
  have dr: "decode_rows True [''a''] 3 (map (\<lambda>r. Node r []) rows) = Inl LengthMismatchError"
    by (rule decode_rows_short) (use assms in auto)
  have root: "decode_root True [Node ''[3]{a}:'' (map (\<lambda>r. Node r []) rows)]
      = Inl LengthMismatchError"
    by (simp add: decode_root_def header_3a(1) dr)
  have e: "decodeFromToon toon_package t opts = decode t opts" for t
    by (simp add: decodeFromToon_def toon_package_def)
  have d: "decode t opts
      = (case scan_lines True k 0 (split_lines [] t) of
           Inl e \<Rightarrow> Inl e
         | Inr ls \<Rightarrow> decode_root True (forest ls))" for t
    using k assms(4) by (simp add: decode_def Let_def st kk)
  have "decodeFromToon toon_package (join [newline] ?ls) opts = Inl LengthMismatchError"
    by (simp only: e d sp sc sum.case forest_block root)
  then show ?thesis
    using decode_rows_short by blast
qed

theorem decode_short_table_strict_witness:
  \<open>data_row [''a''] ''1'' \<and> data_row [''a''] ''2'' \<and> data_row [''a''] ''"x, y"''
   \<and> decodeFromToon toon_package ''[3]{a}:\<newline>  1\<newline>  2''
       (empty_decode_options\<lparr>strict := Some True\<rparr>) = Inl LengthMismatchError
   \<and> decodeFromToon toon_package ''[3]{a}:\<newline>  1\<newline>  2'' empty_decode_options
       = Inl LengthMismatchError
   \<and> decodeFromToon toon_package ''[3]{a}:\<newline>    "x, y"\<newline>    2''
       (empty_decode_options\<lparr>indentSize := Some 4\<rparr>) = Inl LengthMismatchError
   \<and> decode_rows True [''a''] 3 [Node ''1'' [], Node ''2'' []] = Inl LengthMismatchError\<close>
proof -
  have r: \<open>data_row [''a''] ''1''\<close> \<open>data_row [''a''] ''2''\<close> \<open>data_row [''a''] ''"x, y"''\<close>
    by code_simp+
  have t1: "join [newline] (''[3]{a}:'' # map (\<lambda>r. replicate 2 (CHR '' '') @ r) [''1'', ''2''])
      = ''[3]{a}:\<newline>  1\<newline>  2''"
    by code_simp
  have t2: \<open>join [newline] (''[3]{a}:'' # map (\<lambda>r. replicate 4 (CHR '' '') @ r) [''"x, y"'', ''2''])
      = ''[3]{a}:\<newline>    "x, y"\<newline>    2''\<close>
    by code_simp
  have h12: "\<forall>r \<in> set [''1'', ''2'']. data_row [''a''] r"
    using r by simp
  have hx2: \<open>\<forall>r \<in> set [''"x, y"'', ''2'']. data_row [''a''] r\<close>
    using r by simp
  have len: "length [''1'', ''2''] < 3" \<open>length [''"x, y"'', ''2''] < 3\<close>
    by simp_all
  have o1: "strict (empty_decode_options\<lparr>strict := Some True\<rparr>) \<noteq> Some False"
    "expandPaths (empty_decode_options\<lparr>strict := Some True\<rparr>) \<noteq> Some ExpandSafe"
    "indentSize (empty_decode_options\<lparr>strict := Some True\<rparr>) = None \<and> (2::nat) = 2
     \<or> indentSize (empty_decode_options\<lparr>strict := Some True\<rparr>) = Some 2 \<and> (0::nat) < 2"
    by (simp_all add: empty_decode_options_def)
  have o2: "strict empty_decode_options \<noteq> Some False"
    "expandPaths empty_decode_options \<noteq> Some ExpandSafe"
    "indentSize empty_decode_options = None \<and> (2::nat) = 2
     \<or> indentSize empty_decode_options = Some 2 \<and> (0::nat) < 2"
    by (simp_all add: empty_decode_options_def)
  have o3: "strict (empty_decode_options\<lparr>indentSize := Some 4\<rparr>) \<noteq> Some False"
    "expandPaths (empty_decode_options\<lparr>indentSize := Some 4\<rparr>) \<noteq> Some ExpandSafe"
    "indentSize (empty_decode_options\<lparr>indentSize := Some 4\<rparr>) = None \<and> (4::nat) = 2
     \<or> indentSize (empty_decode_options\<lparr>indentSize := Some 4\<rparr>) = Some 4 \<and> (0::nat) < 4"
    by (simp_all add: empty_decode_options_def)
  note a = decode_short_table_strict [OF h12 len(1) o1, unfolded t1]
  note b = decode_short_table_strict [OF h12 len(1) o2, unfolded t1]
  note c = decode_short_table_strict [OF hx2 len(2) o3, unfolded t2]
  have 1: "decodeFromToon toon_package ''[3]{a}:\<newline>  1\<newline>  2''
       (empty_decode_options\<lparr>strict := Some True\<rparr>) = Inl LengthMismatchError"
    using a by (rule conjunct1)
  have 2: "decodeFromToon toon_package ''[3]{a}:\<newline>  1\<newline>  2'' empty_decode_options
       = Inl LengthMismatchError"
    using b by (rule conjunct1)
  have 3: \<open>decodeFromToon toon_package ''[3]{a}:\<newline>    "x, y"\<newline>    2''
       (empty_decode_options\<lparr>indentSize := Some 4\<rparr>) = Inl LengthMismatchError\<close>
    using c by (rule conjunct1)
  from a have "(\<forall>r \<in> set [''1'', ''2'']. data_row [''a''] r) \<and> length [''1'', ''2''] < 3 \<longrightarrow>
      decode_rows True [''a''] 3 (map (\<lambda>r. Node r []) [''1'', ''2'']) = Inl LengthMismatchError"
    by blast
  with h12 have 4: "decode_rows True [''a''] 3 [Node ''1'' [], Node ''2'' []]
      = Inl LengthMismatchError"
    by simp
  from r 1 2 3 4 show ?thesis by simp
qed

text \<open>
  C4. Encoding the string \<^verbatim>\<open>true\<close> gives the quoted token \<^verbatim>\<open>"true"\<close>; decoding the quoted
  token gives the string \<^verbatim>\<open>true\<close>, and decoding the bare token \<^verbatim>\<open>true\<close> gives the boolean
  true.
\<close>

theorem true_string_and_literal:
  \<open>encodeToToon toon_package (String ''true'') empty_encode_options = Inr ''"true"''
   \<and> decodeFromToon toon_package ''"true"'' empty_decode_options = Inr (String ''true'')
   \<and> decodeFromToon toon_package ''true'' empty_decode_options = Inr (Boolean True)\<close>
  by code_simp

end
